theory Spec2Isabelle
  imports Main "HOL-Library.AList"
begin

section \<open>Text, runes and the Unicode tables of the Go library\<close>

text \<open>
  A Go string that holds valid UTF-8 is read by \<^verbatim>\<open>range\<close>, \<^verbatim>\<open>strings.Fields\<close>,
  \<^verbatim>\<open>strings.TrimSpace\<close> and \<^verbatim>\<open>strings.ToLower\<close> as its sequence of code points
  (runes). Message contents are modelled as that sequence; identities (channel, server
  and user ids) are plain strings that the code only compares.

  The bot calls into the \<^verbatim>\<open>unicode\<close> package, whose range tables are not part of
  the repository. They are a parameter of the model: the general category of a code
  point, the \<^verbatim>\<open>White_Space\<close> property and the lower-case mapping. What the
  package decides in code rather than by table (the Latin-1 switch of
  \<^verbatim>\<open>unicode.IsSpace\<close>, the ASCII branch of \<^verbatim>\<open>unicode.ToLower\<close>) is written out.
\<close>

type_synonym rune = nat
type_synonym gostring = "rune list"

datatype gencat =
    Lu | Ll | Lt | Lm | Lo
  | Mn | Mc | Me
  | Nd | Nl | No
  | Pc | Pd | Ps | Pe | Pi | Pf | Po
  | Sm | Sc | Sk | So
  | Zs | Zl | Zp
  | Cc | Cf | Cs | Co | Cn

record unicode_tables =
  category :: "rune \<Rightarrow> gencat"
  White_Space :: "rune \<Rightarrow> bool"
  LowerCase :: "rune \<Rightarrow> rune"

text \<open>\<^verbatim>\<open>unicode.Is(unicode.S, r)\<close>, \<^verbatim>\<open>unicode.Is(unicode.So, r)\<close> and
  \<^verbatim>\<open>unicode.Is(unicode.Mn, r)\<close>: membership in the table of a category. The table
  \<^verbatim>\<open>S\<close> is the union of the four symbol categories.\<close>

definition Is_S :: "unicode_tables \<Rightarrow> rune \<Rightarrow> bool" where
  "Is_S U r = (category U r = Sm \<or> category U r = Sc \<or> category U r = Sk \<or> category U r = So)"

definition Is_So :: "unicode_tables \<Rightarrow> rune \<Rightarrow> bool" where
  "Is_So U r = (category U r = So)"

definition Is_Mn :: "unicode_tables \<Rightarrow> rune \<Rightarrow> bool" where
  "Is_Mn U r = (category U r = Mn)"

text \<open>\<^verbatim>\<open>unicode.IsLetter\<close> (category L) and \<^verbatim>\<open>unicode.IsDigit\<close> (category Nd).\<close>

definition IsLetter :: "unicode_tables \<Rightarrow> rune \<Rightarrow> bool" where
  "IsLetter U r = (category U r = Lu \<or> category U r = Ll \<or> category U r = Lt
                   \<or> category U r = Lm \<or> category U r = Lo)"

definition IsDigit :: "unicode_tables \<Rightarrow> rune \<Rightarrow> bool" where
  "IsDigit U r = (category U r = Nd)"

text \<open>\<^verbatim>\<open>unicode.IsSpace\<close>: in Latin-1 the eight characters tab, line feed, vertical
  tab, form feed, carriage return, space, NEL and NBSP; above it the
  \<^verbatim>\<open>White_Space\<close> table.\<close>

definition IsSpace :: "unicode_tables \<Rightarrow> rune \<Rightarrow> bool" where
  "IsSpace U r =
     (if r \<le> 255 then r = 9 \<or> r = 10 \<or> r = 11 \<or> r = 12 \<or> r = 13 \<or> r = 32 \<or> r = 133 \<or> r = 160
      else White_Space U r)"

text \<open>\<^verbatim>\<open>unicode.ToLower\<close>: ASCII capitals are shifted by 32, other ASCII is returned
  as it is, everything else goes through the case table.\<close>

definition ToLower_rune :: "unicode_tables \<Rightarrow> rune \<Rightarrow> rune" where
  "ToLower_rune U r =
     (if r \<le> 127 then (if 65 \<le> r \<and> r \<le> 90 then r + 32 else r) else LowerCase U r)"

definition ToLower :: "unicode_tables \<Rightarrow> gostring \<Rightarrow> gostring" where
  "ToLower U s = map (ToLower_rune U) s"

definition TrimSpace :: "unicode_tables \<Rightarrow> gostring \<Rightarrow> gostring" where
  "TrimSpace U s = rev (dropWhile (IsSpace U) (rev (dropWhile (IsSpace U) s)))"

text \<open>\<^verbatim>\<open>strings.Fields\<close>: one pass over the runes; \<open>cur\<close> is the field being read,
  empty while the scan is between fields. A white-space rune closes the current field,
  the end of the input closes the last one.\<close>

fun FieldsFrom :: "unicode_tables \<Rightarrow> gostring \<Rightarrow> gostring \<Rightarrow> gostring list" where
  "FieldsFrom U cur [] = (if cur = [] then [] else [cur])"
| "FieldsFrom U cur (r # rs) =
     (if IsSpace U r then (if cur = [] then FieldsFrom U [] rs else cur # FieldsFrom U [] rs)
      else FieldsFrom U (cur @ [r]) rs)"

definition Fields :: "unicode_tables \<Rightarrow> gostring \<Rightarrow> gostring list" where
  "Fields U s = FieldsFrom U [] s"

text \<open>An ASCII string literal of the source, as runes.\<close>

definition runes :: "string \<Rightarrow> gostring" where
  "runes s = map of_char s"

text \<open>The property of the Unicode tables that lower-casing neither creates nor removes
  white space (no white-space character has a case mapping, and no case mapping yields
  one). It is what makes lower-casing and splitting commute.\<close>

definition lower_keeps_space :: "unicode_tables \<Rightarrow> bool" where
  "lower_keeps_space U = (\<forall>r. IsSpace U (ToLower_rune U r) = IsSpace U r)"

text \<open>An excerpt of the tables for concrete runs: the categories of ASCII, of the
  variation selector U+FE0F (Mn), of the skin-tone modifiers U+1F3FB to U+1F3FF (Sk) and
  of the pictographs U+1F389 and U+1F600 (So); the full \<^verbatim>\<open>White_Space\<close> table above
  Latin-1; no case mapping above ASCII. Code points outside the excerpt are reported as
  unassigned, so the excerpt stands for the library only on texts made of the code
  points listed here.\<close>

definition excerpt_category :: "rune \<Rightarrow> gencat" where
  "excerpt_category r =
     (if r < 32 \<or> r = 127 then Cc
      else if r = 32 then Zs
      else if 48 \<le> r \<and> r \<le> 57 then Nd
      else if 65 \<le> r \<and> r \<le> 90 then Lu
      else if 97 \<le> r \<and> r \<le> 122 then Ll
      else if r = 36 then Sc
      else if r = 43 \<or> r = 60 \<or> r = 61 \<or> r = 62 \<or> r = 124 \<or> r = 126 then Sm
      else if r = 94 \<or> r = 96 then Sk
      else if r = 40 \<or> r = 91 \<or> r = 123 then Ps
      else if r = 41 \<or> r = 93 \<or> r = 125 then Pe
      else if r = 45 then Pd
      else if r = 95 then Pc
      else if r < 127 then Po
      else if r = 65039 then Mn
      else if 127995 \<le> r \<and> r \<le> 127999 then Sk
      else if r = 127881 \<or> r = 128512 then So
      else Cn)"

definition excerpt_White_Space :: "rune \<Rightarrow> bool" where
  "excerpt_White_Space r =
     (r = 5760 \<or> (8192 \<le> r \<and> r \<le> 8202) \<or> r = 8232 \<or> r = 8233 \<or> r = 8239 \<or> r = 8287
      \<or> r = 12288)"

definition excerpt :: unicode_tables where
  "excerpt = \<lparr>category = excerpt_category, White_Space = excerpt_White_Space,
              LowerCase = (\<lambda>r. r)\<rparr>"

section \<open>SimilarityScorer: areTextsSimilar\<close>

text \<open>Source: \<^verbatim>\<open>areTextsSimilar\<close>, src/unnamed/part_000 lines 530-552 (the same text
  in src/unnamed/part_001 lines 447-469). The loop \<^verbatim>\<open>for i := range originalWords\<close>
  with its counter; the early \<^verbatim>\<open>return false\<close> is the \<open>False\<close> branch.\<close>

function similarLoop :: "gostring list \<Rightarrow> gostring list \<Rightarrow> nat \<Rightarrow> nat \<Rightarrow> bool" where
  "similarLoop originalWords translatedWords i diffCount =
     (if i < length originalWords then
        (if length translatedWords \<le> i \<or> originalWords ! i \<noteq> translatedWords ! i then
           (if diffCount + 1 > 2 then False
            else similarLoop originalWords translatedWords (i + 1) (diffCount + 1))
         else similarLoop originalWords translatedWords (i + 1) diffCount)
      else True)"
  by pat_completeness auto
termination
  by (relation "measure (\<lambda>(ow, tw, i, d). length ow - i)") auto

declare similarLoop.simps [simp del]

definition areTextsSimilar :: "unicode_tables \<Rightarrow> gostring \<Rightarrow> gostring \<Rightarrow> bool" where
  "areTextsSimilar U original translated =
     (let original' = ToLower U (TrimSpace U original);
          translated' = ToLower U (TrimSpace U translated)
      in if original' = translated' then True
         else similarLoop (Fields U original') (Fields U translated') 0 0)"

text \<open>The scorer as the specification words it: normalise, compare, otherwise count
  the positions of the original's tokens where the translation has no token or another
  one, and answer false exactly when the count exceeds 2.\<close>

definition mismatches :: "gostring list \<Rightarrow> gostring list \<Rightarrow> nat" where
  "mismatches ow tw =
     length (filter (\<lambda>i. length tw \<le> i \<or> ow ! i \<noteq> tw ! i) [0..<length ow])"

definition areSimilar_spec :: "unicode_tables \<Rightarrow> gostring \<Rightarrow> gostring \<Rightarrow> bool" where
  "areSimilar_spec U original translated =
     (let o' = ToLower U (TrimSpace U original);
          t' = ToLower U (TrimSpace U translated)
      in o' = t' \<or> \<not> 2 < mismatches (Fields U o') (Fields U t'))"

section \<open>EmojiClassifier: isOnlyEmoji\<close>

text \<open>Source: \<^verbatim>\<open>isOnlyEmoji\<close> and \<^verbatim>\<open>isEmoji\<close>, src/unnamed/part_000 lines 554-565 (the
  same text twice in src/unnamed/part_001).\<close>

definition isEmoji :: "unicode_tables \<Rightarrow> rune \<Rightarrow> bool" where
  "isEmoji U r = (Is_S U r \<or> Is_So U r \<or> Is_Mn U r)"

fun isOnlyEmoji :: "unicode_tables \<Rightarrow> gostring \<Rightarrow> bool" where
  "isOnlyEmoji U [] = True"
| "isOnlyEmoji U (r # rs) = (if \<not> isEmoji U r then False else isOnlyEmoji U rs)"

section \<open>BannedWordFilter: containsBannedWord\<close>

text \<open>Source: \<^verbatim>\<open>containsBannedWord\<close>, src/unnamed/part_000 lines 497-505. The global
  \<^verbatim>\<open>bannedWords\<close> (a \<^verbatim>\<open>map[string]struct{}\<close>) is a set of words and a parameter
  here. The loop returns at the first word found in it.\<close>

fun bannedLoop :: "gostring set \<Rightarrow> gostring list \<Rightarrow> bool" where
  "bannedLoop bannedWords [] = False"
| "bannedLoop bannedWords (word # words) =
     (if word \<in> bannedWords then True else bannedLoop bannedWords words)"

definition containsBannedWord :: "unicode_tables \<Rightarrow> gostring set \<Rightarrow> gostring \<Rightarrow> bool" where
  "containsBannedWord U bannedWords s = bannedLoop bannedWords (Fields U (ToLower U s))"

section \<open>ChannelRouter\<close>

datatype error = StoreError | ScanError | GatewayError | DetectionError

text \<open>Which of the calls to the database fail: the \<^verbatim>\<open>SELECT\<close> of one row, the
  \<^verbatim>\<open>INSERT OR REPLACE\<close>, the \<^verbatim>\<open>SELECT\<close> of all rows. The driver and the file are
  outside the repository; a failing call returns its error and changes nothing.\<close>

record db_faults =
  query_fails :: bool
  exec_fails :: bool
  reload_fails :: bool

text \<open>A nullable text column, and \<^verbatim>\<open>sql.NullString\<close> read back from it: \<open>None\<close> is
  NULL (\<^verbatim>\<open>Valid = false\<close>), and the field \<^verbatim>\<open>.String\<close> of a NULL is the empty string.\<close>

type_synonym NullString = "string option"

definition String_of :: "NullString \<Rightarrow> string" where
  "String_of n = (case n of None \<Rightarrow> [] | Some s \<Rightarrow> s)"

subsection \<open>Three slots, with the index in memory\<close>

text \<open>Source: src/unnamed/part_000, \<^verbatim>\<open>loadTranslateChannels\<close> (lines 125-147),
  \<^verbatim>\<open>addTranslateChannels\<close> (lines 433-458) and \<^verbatim>\<open>isTranslateChannel\<close> (lines 486-495).
  A row of the table \<^verbatim>\<open>channels\<close>: \<^verbatim>\<open>server_id\<close> (unique, not null) and the three
  channel columns the code reads and writes. The global \<^verbatim>\<open>translateChannels\<close>, a
  \<^verbatim>\<open>map[string][3]string\<close>, is an association list with one entry per key.\<close>

type_synonym channels_row = "string \<times> NullString \<times> NullString \<times> NullString"
type_synonym channels_index = "(string \<times> string \<times> string \<times> string) list"

record bot_state =
  channels_table :: "channels_row list"
  translateChannels :: channels_index

fun loadRows :: "channels_row list \<Rightarrow> channels_index \<Rightarrow> channels_index" where
  "loadRows [] m = m"
| "loadRows ((serverID, channelID1, channelID2, channelID3) # rows) m =
     loadRows rows
       (AList.update serverID (String_of channelID1, String_of channelID2, String_of channelID3) m)"

definition loadTranslateChannels :: "db_faults \<Rightarrow> bot_state \<Rightarrow> error option \<times> bot_state" where
  "loadTranslateChannels F st =
     (if reload_fails F then (Some StoreError, st)
      else (None, st\<lparr>translateChannels := loadRows (channels_table st) []\<rparr>))"

text \<open>\<^verbatim>\<open>INSERT OR REPLACE\<close> under \<^verbatim>\<open>UNIQUE(server_id)\<close>: the row of the server, if any,
  is deleted and the new row is added.\<close>

definition insertOrReplace :: "string \<Rightarrow> 'v \<Rightarrow> (string \<times> 'v) list \<Rightarrow> (string \<times> 'v) list" where
  "insertOrReplace serverID v tbl = AList.delete serverID tbl @ [(serverID, v)]"

text \<open>A channel argument of the command is a pointer: \<open>None\<close> is \<^verbatim>\<open>nil\<close>, \<open>Some c\<close> a
  channel whose \<^verbatim>\<open>ID\<close> is \<open>c\<close>.\<close>

definition override :: "string option \<Rightarrow> NullString \<Rightarrow> NullString" where
  "override channel existing = (case channel of None \<Rightarrow> existing | Some c \<Rightarrow> Some c)"

definition addTranslateChannels ::
  "db_faults \<Rightarrow> string \<Rightarrow> string option \<Rightarrow> string option \<Rightarrow> string option \<Rightarrow> bot_state
     \<Rightarrow> error option \<times> bot_state" where
  "addTranslateChannels F serverID channel1 channel2 channel3 st =
     (if query_fails F then (Some StoreError, st)
      else
        let (existingChannelID1, existingChannelID2, existingChannelID3) =
              (case map_of (channels_table st) serverID of
                 None \<Rightarrow> (None, None, None)
               | Some row \<Rightarrow> row);
            row' = (override channel1 existingChannelID1, override channel2 existingChannelID2,
                    override channel3 existingChannelID3)
        in if exec_fails F then (Some StoreError, st)
           else loadTranslateChannels F
                  (st\<lparr>channels_table := insertOrReplace serverID row' (channels_table st)\<rparr>))"

fun isTranslateChannel :: "channels_index \<Rightarrow> string \<Rightarrow> bool" where
  "isTranslateChannel [] channelID = False"
| "isTranslateChannel ((serverID, chID1, chID2, chID3) # rest) channelID =
     (if chID1 = channelID \<or> chID2 = channelID \<or> chID3 = channelID then True
      else isTranslateChannel rest channelID)"

subsection \<open>Two slots, read from the database on every message\<close>

type_synonym channels_row2 = "string \<times> NullString \<times> NullString"


text \<open>\<^verbatim>\<open>SELECT COUNT(*) ... WHERE channel_id1 = ? OR channel_id2 = ?\<close>: a NULL column
  equals nothing. The error of \<^verbatim>\<open>Scan\<close> is dropped, which leaves the count at 0.\<close>

definition isTranslateChannel2 :: "db_faults \<Rightarrow> channels_row2 list \<Rightarrow> string \<Rightarrow> bool" where
  "isTranslateChannel2 F tbl channelID =
     (let count = (if query_fails F then 0
                   else length (filter (\<lambda>(serverID, c1, c2). c1 = Some channelID \<or> c2 = Some channelID) tbl))
      in count > 0)"

text \<open>The channels held by the set slots of the stored rows, which is what the
  specification calls enrolled. With three slots an unset slot is NULL; with two slots
  the code writes the empty string for a slot it was not given, so there a set slot is
  one that is neither NULL nor empty.\<close>

definition slots_of :: "NullString list \<Rightarrow> string list" where
  "slots_of ns = concat (map (\<lambda>n. case n of None \<Rightarrow> [] | Some c \<Rightarrow> [c]) ns)"

definition set_slots :: "channels_row list \<Rightarrow> string list" where
  "set_slots tbl = concat (map (\<lambda>(serverID, s1, s2, s3). slots_of [s1, s2, s3]) tbl)"

definition set_slots2 :: "channels_row2 list \<Rightarrow> string list" where
  "set_slots2 tbl =
     filter (\<lambda>c. c \<noteq> []) (concat (map (\<lambda>(serverID, s1, s2). slots_of [s1, s2]) tbl))"

text \<open>The channels held by the set slots of the index in memory, where an unset slot
  is the empty string.\<close>

definition index_slots :: "channels_index \<Rightarrow> string list" where
  "index_slots index =
     filter (\<lambda>c. c \<noteq> []) (concat (map (\<lambda>(serverID, chID1, chID2, chID3). [chID1, chID2, chID3]) index))"

text \<open>The states of the three-slot router that the bot reaches. At startup the index is
  loaded (\<^verbatim>\<open>main\<close> stops with \<^verbatim>\<open>log.Fatal\<close> when that fails); afterwards the state
  changes only through \<^verbatim>\<open>addTranslateChannels\<close>. A command that succeeds, or that
  fails at its query or at its write, is a step. The one run left out is a reload that
  fails after the row was written: it returns its error with the index behind the
  table.\<close>

inductive reachable :: "bot_state \<Rightarrow> bool" where
  startup: "loadTranslateChannels F st0 = (None, st) \<Longrightarrow> reachable st"
| command:
    "reachable st \<Longrightarrow>
     addTranslateChannels F serverID channel1 channel2 channel3 st = (r, st') \<Longrightarrow>
     r = None \<or> query_fails F \<or> exec_fails F \<Longrightarrow> reachable st'"

section \<open>TranslationPipeline: messageCreate\<close>

text \<open>The handler's inputs from outside the repository: the tables, the bot's own user
  id (\<^verbatim>\<open>s.State.User.ID\<close>), and the answers of the two external services to the one call
  the handler may make to each. Its effects are the trace of events it returns, in
  order: calls to the services, lines logged, messages sent.\<close>

record message =
  author_id :: string
  channel_id :: string
  content :: gostring

record env =
  tables :: unicode_tables
  selfID :: string
  detectLanguage :: "gostring \<Rightarrow> error + gostring"
  translateToEnglish :: "gostring \<Rightarrow> error + gostring"
  translateFrom :: "gostring \<Rightarrow> gostring \<Rightarrow> error + gostring"

datatype event =
    DetectCall gostring
  | TranslateCall gostring
  | TranslateFromCall gostring gostring
  | LogPrintln string error
  | ChannelMessageSend string gostring

definition translated_label :: "gostring \<Rightarrow> gostring" where
  "translated_label translatedText = runes ''Translated: '' @ translatedText"

text \<open>The variant with the word-ban list and the three-slot index
  (src/unnamed/part_000 lines 460-484).\<close>

definition messageCreate_wordban ::
  "env \<Rightarrow> channels_index \<Rightarrow> gostring set \<Rightarrow> message \<Rightarrow> event list" where
  "messageCreate_wordban E index bannedWords m =
     (if author_id m = selfID E \<or> \<not> isTranslateChannel index (channel_id m) then []
      else if isOnlyEmoji (tables E) (content m) then []
      else if containsBannedWord (tables E) bannedWords (content m) then []
      else
        (case translateToEnglish E (content m) of
           Inl err \<Rightarrow> [TranslateCall (content m), LogPrintln ''Error translating message,'' err]
         | Inr translatedText \<Rightarrow>
             TranslateCall (content m) #
             (if areTextsSimilar (tables E) (content m) translatedText then []
              else [ChannelMessageSend (channel_id m) (translated_label translatedText)])))"

text \<open>The variant with one channel, the emoji check and the language detector
  (src/unnamed/part_001 lines 92-116).\<close>

definition messageCreate_detect :: "env \<Rightarrow> string \<Rightarrow> message \<Rightarrow> event list" where
  "messageCreate_detect E translateChannelID m =
     (if author_id m = selfID E \<or> channel_id m \<noteq> translateChannelID then []
      else if isOnlyEmoji (tables E) (content m) then []
      else
        (case detectLanguage E (content m) of
           Inl err \<Rightarrow> [DetectCall (content m), LogPrintln ''Error detecting language,'' err]
         | Inr detectedLang \<Rightarrow>
             DetectCall (content m) #
             (if detectedLang \<noteq> runes ''en'' then
                (case translateToEnglish E (content m) of
                   Inl err \<Rightarrow>
                     [TranslateCall (content m), LogPrintln ''Error translating message,'' err]
                 | Inr translatedText \<Rightarrow>
                     [TranslateCall (content m),
                      ChannelMessageSend (channel_id m) (translated_label translatedText)])
              else [])))"

text \<open>The variant with one channel and the detector, without the emoji check; the
  detected language is passed to the translation service (src/main.go lines 89-108).\<close>

definition messageCreate_api :: "env \<Rightarrow> string \<Rightarrow> message \<Rightarrow> event list" where
  "messageCreate_api E translateChannelID m =
     (if author_id m = selfID E \<or> channel_id m \<noteq> translateChannelID then []
      else
        (case detectLanguage E (content m) of
           Inl err \<Rightarrow> [DetectCall (content m), LogPrintln ''Error detecting language,'' err]
         | Inr detectedLang \<Rightarrow>
             DetectCall (content m) #
             (if detectedLang \<noteq> runes ''en'' then
                (case translateFrom E (content m) detectedLang of
                   Inl err \<Rightarrow>
                     [TranslateFromCall (content m) detectedLang,
                      LogPrintln ''Error translating message,'' err]
                 | Inr translatedText \<Rightarrow>
                     [TranslateFromCall (content m) detectedLang,
                      ChannelMessageSend (channel_id m) (translated_label translatedText)])
              else [])))"

text \<open>The trivial-content variant (src/unnamed/part_001 lines 381-410): two slots read
  from the database, the one-word check and the \<^verbatim>\<open>en\<close> prefix. \<open>content'\<close> is \<^verbatim>\<open>m.Content\<close> after the assignment.\<close>

definition messageCreate_trivial ::
  "env \<Rightarrow> db_faults \<Rightarrow> channels_row2 list \<Rightarrow> message \<Rightarrow> event list" where
  "messageCreate_trivial E F tbl m =
     (if author_id m = selfID E \<or> \<not> isTranslateChannel2 F tbl (channel_id m) then []
      else if isOnlyEmoji (tables E) (content m) then []
      else
        let words = Fields (tables E) (content m) in
        if length words = 1 then []
        else
          let content' =
                (if length words = 2 \<and> ToLower (tables E) (words ! 0) = runes ''en''
                 then words ! 1 else content m)
          in
            (case translateToEnglish E content' of
               Inl err \<Rightarrow> [TranslateCall content', LogPrintln ''Error translating message,'' err]
             | Inr translatedText \<Rightarrow>
                 TranslateCall content' #
                 (if areTextsSimilar (tables E) content' translatedText then []
                  else [ChannelMessageSend (channel_id m) (translated_label translatedText)])))"

text \<open>Reading a trace: the messages sent and the calls made to the translation
  service.\<close>

fun is_send :: "event \<Rightarrow> bool" where
  "is_send (ChannelMessageSend c s) = True"
| "is_send e = False"

fun is_gateway_call :: "event \<Rightarrow> bool" where
  "is_gateway_call (TranslateCall s) = True"
| "is_gateway_call (TranslateFromCall s l) = True"
| "is_gateway_call e = False"

section \<open>Sample inputs\<close>

text \<open>A server, a channel, a user, and services that answer the same to every call;
  used to run the definitions on concrete messages.\<close>

definition no_faults :: db_faults where
  "no_faults = \<lparr>query_fails = False, exec_fails = False, reload_fails = False\<rparr>"

definition state0 :: bot_state where
  "state0 = \<lparr>channels_table = [], translateChannels = []\<rparr>"

definition index0 :: channels_index where
  "index0 = [(''guild'', ''chan1'', [], [])]"

definition table2_0 :: "channels_row2 list" where
  "table2_0 = [(''guild'', Some ''chan1'', Some [])]"

definition env0 :: env where
  "env0 = \<lparr>tables = excerpt, selfID = ''bot'',
            detectLanguage = (\<lambda>s. Inr (runes ''fr'')),
            translateToEnglish = (\<lambda>s. Inr (runes ''hello the world'')),
            translateFrom = (\<lambda>s l. Inl GatewayError)\<rparr>"

definition msg0 :: message where
  "msg0 = \<lparr>author_id = ''alice'', channel_id = ''chan1'', content = runes ''bonjour le monde''\<rparr>"

definition msg_en :: message where
  "msg_en = \<lparr>author_id = ''alice'', channel_id = ''chan1'', content = runes ''en bonjour''\<rparr>"

section \<open>Facts about the library functions\<close>

text \<open>The loop of the scorer answers whether the counter, advanced over the remaining
  positions, stays at 2 or below.\<close>

lemma similarLoop_count:
  "d \<le> 2 \<Longrightarrow> similarLoop ow tw i d =
     (d + length (filter (\<lambda>j. length tw \<le> j \<or> ow ! j \<noteq> tw ! j) [i..<length ow]) \<le> 2)"
proof (induction ow tw i d rule: similarLoop.induct)
  case (1 ow tw i d)
  show ?case
  proof (cases "i < length ow")
    case False
    with "1.prems" show ?thesis by (simp add: similarLoop.simps)
  next
    case True
    then have upt: "[i..<length ow] = i # [i + 1..<length ow]"
      by (simp add: upt_conv_Cons)
    show ?thesis
    proof (cases "length tw \<le> i \<or> ow ! i \<noteq> tw ! i")
      case miss: True
      show ?thesis
      proof (cases "d + 1 > 2")
        case True
        with miss \<open>i < length ow\<close> show ?thesis
          by (subst similarLoop.simps) (auto simp: upt)
      next
        case False
        then have "d + 1 \<le> 2" by simp
        with "1.IH"(1) [OF \<open>i < length ow\<close> miss False] miss \<open>i < length ow\<close> False
        show ?thesis
          by (subst similarLoop.simps) (auto simp: upt)
      qed
    next
      case hit: False
      with "1.IH"(2) [OF \<open>i < length ow\<close> hit "1.prems"] \<open>i < length ow\<close>
      show ?thesis
        by (subst similarLoop.simps) (auto simp: upt)
    qed
  qed
qed


lemma areTextsSimilar_refines: "areTextsSimilar U a b = areSimilar_spec U a b"
  by (auto simp: areTextsSimilar_def areSimilar_spec_def Let_def mismatches_def similarLoop_count)


lemma FieldsFrom_spaces:
  "\<forall>r\<in>set ws. IsSpace U r \<Longrightarrow> FieldsFrom U cur ws = (if cur = [] then [] else [cur])"
  by (induction ws arbitrary: cur) auto


lemma FieldsFrom_append_spaces:
  "\<forall>r\<in>set ws. IsSpace U r \<Longrightarrow> FieldsFrom U cur (s @ ws) = FieldsFrom U cur s"
  by (induction s arbitrary: cur) (auto simp: FieldsFrom_spaces)


lemma FieldsFrom_dropWhile:
  "FieldsFrom U [] (dropWhile (IsSpace U) s) = FieldsFrom U [] s"
  by (induction s) auto


lemma Fields_TrimSpace: "Fields U (TrimSpace U s) = Fields U s"
proof -
  let ?t = "dropWhile (IsSpace U) s"
  have split: "?t = rev (dropWhile (IsSpace U) (rev ?t)) @ rev (takeWhile (IsSpace U) (rev ?t))"
    by (metis rev_append rev_rev_ident takeWhile_dropWhile_id)
  have sp: "\<forall>r\<in>set (rev (takeWhile (IsSpace U) (rev ?t))). IsSpace U r"
    by (auto dest: set_takeWhileD)
  have "FieldsFrom U [] (rev (dropWhile (IsSpace U) (rev ?t))) = FieldsFrom U [] ?t"
    using FieldsFrom_append_spaces [OF sp, of "[]" "rev (dropWhile (IsSpace U) (rev ?t))"] split
    by simp
  then show ?thesis
    by (simp add: Fields_def TrimSpace_def FieldsFrom_dropWhile)
qed


lemma FieldsFrom_map_lower:
  "lower_keeps_space U \<Longrightarrow>
   FieldsFrom U (map (ToLower_rune U) cur) (map (ToLower_rune U) s)
     = map (map (ToLower_rune U)) (FieldsFrom U cur s)"
proof (induction s arbitrary: cur)
  case Nil
  then show ?case by simp
next
  case (Cons r rs)
  from Cons.prems have sp: "IsSpace U (ToLower_rune U r) = IsSpace U r"
    by (simp add: lower_keeps_space_def)
  from Cons.IH [OF Cons.prems, of "[]"] Cons.IH [OF Cons.prems, of "cur @ [r]"] sp
  show ?case by auto
qed


lemma Fields_ToLower:
  "lower_keeps_space U \<Longrightarrow> Fields U (ToLower U s) = map (ToLower U) (Fields U s)"
  using FieldsFrom_map_lower [of U "[]" s] by (simp add: Fields_def ToLower_def)


lemma FieldsFrom_tokens:
  "w \<in> set (FieldsFrom U cur s) \<Longrightarrow> \<forall>r\<in>set cur. \<not> IsSpace U r \<Longrightarrow>
     w \<noteq> [] \<and> (\<forall>r\<in>set w. \<not> IsSpace U r)"
proof (induction s arbitrary: cur)
  case Nil
  then show ?case by (cases "cur = []") auto
next
  case (Cons r rs)
  show ?case
  proof (cases "IsSpace U r")
    case True
    show ?thesis
    proof (cases "cur = []")
      case True
      with \<open>IsSpace U r\<close> Cons.prems(1) have "w \<in> set (FieldsFrom U [] rs)" by simp
      then show ?thesis by (rule Cons.IH) simp
    next
      case False
      with \<open>IsSpace U r\<close> Cons.prems(1) have "w = cur \<or> w \<in> set (FieldsFrom U [] rs)" by simp
      then show ?thesis
      proof
        assume "w = cur"
        with False Cons.prems(2) show ?thesis by simp
      next
        assume "w \<in> set (FieldsFrom U [] rs)"
        then show ?thesis by (rule Cons.IH) simp
      qed
    qed
  next
    case False
    with Cons.prems(1) have "w \<in> set (FieldsFrom U (cur @ [r]) rs)" by simp
    then show ?thesis
    proof (rule Cons.IH)
      from False Cons.prems(2) show "\<forall>x\<in>set (cur @ [r]). \<not> IsSpace U x" by simp
    qed
  qed
qed

lemma FieldsFrom_no_space:
  "\<forall>r\<in>set w. \<not> IsSpace U r \<Longrightarrow> FieldsFrom U cur w = (if cur @ w = [] then [] else [cur @ w])"
proof (induction w arbitrary: cur)
  case Nil
  then show ?case by simp
next
  case (Cons r rs)
  then have "\<not> IsSpace U r" and rest: "\<forall>x\<in>set rs. \<not> IsSpace U x" by simp_all
  then have "FieldsFrom U cur (r # rs) = FieldsFrom U (cur @ [r]) rs" by simp
  also have "\<dots> = [(cur @ [r]) @ rs]" using Cons.IH [OF rest, of "cur @ [r]"] by simp
  finally show ?case by simp
qed

lemma Fields_token:
  assumes "w \<in> set (Fields U s)"
  shows "Fields U w = [w]"
proof -
  from assms have "w \<in> set (FieldsFrom U [] s)" by (simp add: Fields_def)
  then have "w \<noteq> [] \<and> (\<forall>r\<in>set w. \<not> IsSpace U r)" by (rule FieldsFrom_tokens) simp
  then show ?thesis using FieldsFrom_no_space [of w U "[]"] by (simp add: Fields_def)
qed


lemma IsSpace_ToLower_ascii:
  "r \<le> 127 \<Longrightarrow> IsSpace U (ToLower_rune U r) = IsSpace U r"
  unfolding IsSpace_def ToLower_rune_def by (simp; arith)

lemma excerpt_lower_keeps_space: "lower_keeps_space excerpt"
  unfolding lower_keeps_space_def
proof
  fix r :: rune
  show "IsSpace excerpt (ToLower_rune excerpt r) = IsSpace excerpt r"
  proof (cases "r \<le> 127")
    case True
    then show ?thesis by (rule IsSpace_ToLower_ascii)
  next
    case False
    then show ?thesis by (simp add: ToLower_rune_def excerpt_def)
  qed
qed

lemmas go_eval = runes_def Fields_def TrimSpace_def ToLower_def ToLower_rune_def IsSpace_def

lemma similarLoop_short: "length ow \<le> 2 \<Longrightarrow> similarLoop ow tw 0 0"
proof -
  assume "length ow \<le> 2"
  moreover have "length (filter (\<lambda>j. length tw \<le> j \<or> ow ! j \<noteq> tw ! j) [0..<length ow]) \<le> length [0..<length ow]"
    by (rule length_filter_le)
  ultimately show ?thesis by (simp add: similarLoop_count)
qed

lemma short_similar:
  "length (Fields U (ToLower U (TrimSpace U original))) \<le> 2 \<Longrightarrow> areTextsSimilar U original translated"
  by (simp add: areTextsSimilar_def Let_def similarLoop_short)

lemma short_similar_raw:
  assumes "lower_keeps_space U" and "length (Fields U original) \<le> 2"
  shows "areTextsSimilar U original translated"
proof -
  from assms(1) have "Fields U (ToLower U (TrimSpace U original)) = map (ToLower U) (Fields U original)"
    by (simp add: Fields_ToLower Fields_TrimSpace)
  with assms(2) show ?thesis by (simp add: short_similar)
qed

lemma token_similar:
  assumes "lower_keeps_space U" and "w \<in> set (Fields U s)"
  shows "areTextsSimilar U w translated"
proof -
  from assms(2) have "Fields U w = [w]" by (rule Fields_token)
  then have "length (Fields U w) \<le> 2" by simp
  with assms(1) show ?thesis by (rule short_similar_raw)
qed

section \<open>Facts about the classifier and the filter\<close>

lemma isOnlyEmoji_all: "isOnlyEmoji U s = (\<forall>r\<in>set s. isEmoji U r)"
  by (induction s) auto

lemma letter_not_emoji: "IsLetter U r \<or> IsDigit U r \<Longrightarrow> \<not> isEmoji U r"
  by (auto simp: IsLetter_def IsDigit_def isEmoji_def Is_S_def Is_So_def Is_Mn_def)

lemma bannedLoop_ex: "bannedLoop B ws = (\<exists>w\<in>set ws. w \<in> B)"
  by (induction ws) auto

lemmas cat_eval = isEmoji_def Is_S_def Is_So_def Is_Mn_def IsLetter_def IsDigit_def
  excerpt_def excerpt_category_def

section \<open>Facts about the sample inputs\<close>

lemma msg0_not_emoji: "\<not> isOnlyEmoji excerpt (runes ''bonjour le monde'')"
  by (simp add: runes_def cat_eval)

lemma msg0_not_similar:
  "\<not> areTextsSimilar excerpt (runes ''bonjour le monde'') (runes ''hello the world'')"
  by (simp add: areTextsSimilar_def go_eval similarLoop_count upt_conv_Cons)

lemma env0_sel:
  "tables env0 = excerpt" "selfID env0 = ''bot''" "detectLanguage env0 s = Inr (runes ''fr'')"
  "translateToEnglish env0 s = Inr (runes ''hello the world'')"
  "translateFrom env0 s l = Inl GatewayError"
  by (simp_all add: env0_def)

lemma msg0_sel:
  "author_id msg0 = ''alice''" "channel_id msg0 = ''chan1''"
  "content msg0 = runes ''bonjour le monde''"
  by (simp_all add: msg0_def)

lemma index0_chan1: "isTranslateChannel index0 ''chan1''" "\<not> isTranslateChannel index0 ''chan9''"
  by (simp_all add: index0_def)

lemma msg0_not_banned:
  "\<not> containsBannedWord excerpt {runes ''spam''} (runes ''bonjour le monde'')"
  by (simp add: containsBannedWord_def go_eval)

lemma party_is_emoji: "isOnlyEmoji excerpt [128512, 127881]"
  by (simp add: cat_eval)

lemma fr_not_en: "runes ''fr'' \<noteq> runes ''en''"
  by (simp add: runes_def)

lemma ToLower_en: "ToLower U (runes ''en'') = runes ''en''"
  by (simp add: go_eval)

lemma msg_en_sel:
  "author_id msg_en = ''alice''" "channel_id msg_en = ''chan1''"
  "content msg_en = runes ''en bonjour''"
  by (simp_all add: msg_en_def)

lemma table2_0_chan1: "isTranslateChannel2 no_faults table2_0 ''chan1''"
  by (simp add: isTranslateChannel2_def no_faults_def table2_0_def)

lemma en_bonjour_fields: "Fields excerpt (runes ''en bonjour'') = [runes ''en'', runes ''bonjour'']"
  by (simp add: go_eval)

lemma en_bonjour_not_emoji: "\<not> isOnlyEmoji excerpt (runes ''en bonjour'')"
  by (simp add: runes_def cat_eval)

lemma bonjour_one_field: "length (Fields excerpt (runes ''bonjour'')) = 1"
  by (simp add: go_eval)

lemma bonjour_not_emoji: "\<not> isOnlyEmoji excerpt (runes ''bonjour'')"
  by (simp add: runes_def cat_eval)

section \<open>Facts about the router\<close>

lemma isTranslateChannel_iff:
  "isTranslateChannel idx ch = (\<exists>(s, x, y, z)\<in>set idx. x = ch \<or> y = ch \<or> z = ch)"
  by (induction idx ch rule: isTranslateChannel.induct) auto



lemma set_update_cases: "e \<in> set (AList.update k v al) \<Longrightarrow> e = (k, v) \<or> e \<in> set al"
  by (induction al) (auto split: if_splits)

lemma loadRows_origin:
  "(s, x, y, z) \<in> set (loadRows tbl m) \<Longrightarrow>
     (s, x, y, z) \<in> set m
     \<or> (\<exists>a b c. (s, a, b, c) \<in> set tbl \<and> x = String_of a \<and> y = String_of b \<and> z = String_of c)"
proof (induction tbl m rule: loadRows.induct)
  case (1 m)
  then show ?case by simp
next
  case (2 serverID c1 c2 c3 rows m)
  from "2.IH" [OF "2.prems" [simplified]]
  show ?case
  proof
    assume "(s, x, y, z) \<in> set (AList.update serverID (String_of c1, String_of c2, String_of c3) m)"
    then have "(s, x, y, z) = (serverID, String_of c1, String_of c2, String_of c3)
               \<or> (s, x, y, z) \<in> set m"
      by (rule set_update_cases)
    then show ?thesis by auto
  next
    assume "\<exists>a b c. (s, a, b, c) \<in> set rows \<and> x = String_of a \<and> y = String_of b \<and> z = String_of c"
    then show ?thesis by auto
  qed
qed



lemma addTranslateChannels_ok:
  assumes "addTranslateChannels F S ch1 ch2 ch3 st = (None, st')"
  shows "\<exists>e1 e2 e3.
           (e1, e2, e3) = (case map_of (channels_table st) S of
                             None \<Rightarrow> (None, None, None) | Some row \<Rightarrow> row)
         \<and> channels_table st'
             = insertOrReplace S (override ch1 e1, override ch2 e2, override ch3 e3)
                 (channels_table st)
         \<and> translateChannels st' = loadRows (channels_table st') []"
proof -
  obtain e1 e2 e3 where e: "(case map_of (channels_table st) S of
                             None \<Rightarrow> (None, None, None) | Some row \<Rightarrow> row) = (e1, e2, e3)"
    by (cases "case map_of (channels_table st) S of
                 None \<Rightarrow> (None, None, None) | Some row \<Rightarrow> row") auto
  from assms e have "st' = st\<lparr>channels_table :=
        insertOrReplace S (override ch1 e1, override ch2 e2, override ch3 e3) (channels_table st),
      translateChannels := loadRows
        (insertOrReplace S (override ch1 e1, override ch2 e2, override ch3 e3) (channels_table st)) []\<rparr>"
    by (auto simp: addTranslateChannels_def loadTranslateChannels_def Let_def split: if_splits)
  with e show ?thesis by auto
qed



lemma isTranslateChannel2_iff:
  "isTranslateChannel2 F tbl ch =
     (\<not> query_fails F \<and> (\<exists>(s, a, b)\<in>set tbl. a = Some ch \<or> b = Some ch))"
  by (auto simp: isTranslateChannel2_def Let_def filter_empty_conv)




lemma String_of_nonempty: "String_of slot = c \<Longrightarrow> c \<noteq> [] \<Longrightarrow> slot = Some c"
  by (cases slot) (auto simp: String_of_def)

lemma set_slots_mem:
  "(s, a, b, d) \<in> set tbl \<Longrightarrow> a = Some c \<or> b = Some c \<or> d = Some c \<Longrightarrow> c \<in> set (set_slots tbl)"
  by (force simp: set_slots_def slots_of_def)

lemma set_slots2_mem:
  "(s, a, b) \<in> set tbl \<Longrightarrow> a = Some c \<or> b = Some c \<Longrightarrow> c \<noteq> [] \<Longrightarrow> c \<in> set (set_slots2 tbl)"
  by (force simp: set_slots2_def slots_of_def)

lemma index_match_is_enrolled:
  assumes "isTranslateChannel (loadRows tbl []) c" and "c \<noteq> []"
  shows "c \<in> set (set_slots tbl)"
proof -
  from assms(1) obtain s x y z where mem: "(s, x, y, z) \<in> set (loadRows tbl [])"
    and hit: "x = c \<or> y = c \<or> z = c"
    unfolding isTranslateChannel_iff by blast
  from loadRows_origin [OF mem] obtain a b d where row: "(s, a, b, d) \<in> set tbl"
    and x: "x = String_of a" and y: "y = String_of b" and z: "z = String_of d"
    by auto
  from hit x y z assms(2) have "a = Some c \<or> b = Some c \<or> d = Some c"
    using String_of_nonempty [of a c] String_of_nonempty [of b c] String_of_nonempty [of d c]
    by blast
  with row show ?thesis by (rule set_slots_mem)
qed

lemma index_slots_Nil: "index_slots [] = []"
  by (simp add: index_slots_def)

lemma index_slots_Cons:
  "index_slots ((s, x, y, z) # rest) = filter (\<lambda>c. c \<noteq> []) [x, y, z] @ index_slots rest"
  by (simp add: index_slots_def)

lemma isTranslateChannel_index_slots:
  "c \<noteq> [] \<Longrightarrow> isTranslateChannel index c = (c \<in> set (index_slots index))"
proof (induction index c rule: isTranslateChannel.induct)
  case (1 channelID)
  then show ?case by (simp add: index_slots_Nil)
next
  case (2 serverID chID1 chID2 chID3 rest channelID)
  show ?case
  proof (cases "chID1 = channelID \<or> chID2 = channelID \<or> chID3 = channelID")
    case True
    with "2.prems" show ?thesis by (auto simp: index_slots_Cons)
  next
    case False
    with "2.IH" "2.prems" show ?thesis by (auto simp: index_slots_Cons)
  qed
qed

lemma addTranslateChannels_refused:
  "query_fails F \<or> exec_fails F \<Longrightarrow>
   addTranslateChannels F S ch1 ch2 ch3 st = (r, st') \<Longrightarrow> st' = st"
  by (auto simp: addTranslateChannels_def Let_def split: if_splits prod.splits)

lemma reachable_index_fresh:
  "reachable st \<Longrightarrow> translateChannels st = loadRows (channels_table st) []"
proof (induction rule: reachable.induct)
  case (startup F st0 st)
  then show ?case by (auto simp: loadTranslateChannels_def split: if_splits)
next
  case (command st F serverID channel1 channel2 channel3 r st')
  show ?case
  proof (cases "query_fails F \<or> exec_fails F")
    case True
    from addTranslateChannels_refused [OF True command.hyps(2)] have "st' = st" .
    with command.IH show ?thesis by simp
  next
    case False
    with command.hyps(3) have "r = None" by simp
    with command.hyps(2) addTranslateChannels_ok [of F serverID channel1 channel2 channel3 st st']
    show ?thesis by auto
  qed
qed

text \<open>The empty string is how an unset slot reads back, so it is the one string that
  an unset slot matches; it is not the identity of any channel.\<close>

lemma empty_string_reads_unset_slot:
  "loadRows [(''guild'', Some ''chan1'', None, None)] [] = [(''guild'', ''chan1'', [], [])]
   \<and> isTranslateChannel [(''guild'', ''chan1'', [], [])] []"
  by (simp add: String_of_def)

section \<open>The claims\<close>

text \<open>Claim C1. The gates run in order and stop at the first that fails: a message of
  the bot itself, in a channel that is not enrolled, or made only of emoji code points
  leaves an empty trace (no call to the translation service, nothing sent). A message
  that passes every gate leaves the call to the service followed by one message, sent
  to the channel it came from, whose text is \<^verbatim>\<open>Translated: \<close> followed by the
  service's answer. Stated for the word-ban variant and for the variant with the
  language detector.\<close>

theorem pipeline_gates_and_emit:
  "(author_id m = selfID E \<or> \<not> isTranslateChannel index (channel_id m)
      \<or> isOnlyEmoji (tables E) (content m)
     \<longrightarrow> messageCreate_wordban E index B m = [])
   \<and> (author_id m \<noteq> selfID E \<and> isTranslateChannel index (channel_id m)
      \<and> \<not> isOnlyEmoji (tables E) (content m)
      \<and> \<not> containsBannedWord (tables E) B (content m)
      \<and> translateToEnglish E (content m) = Inr t
      \<and> \<not> areTextsSimilar (tables E) (content m) t
     \<longrightarrow> messageCreate_wordban E index B m
          = [TranslateCall (content m),
             ChannelMessageSend (channel_id m) (runes ''Translated: '' @ t)])
   \<and> (author_id m = selfID E \<or> channel_id m \<noteq> ch \<or> isOnlyEmoji (tables E) (content m)
     \<longrightarrow> messageCreate_detect E ch m = [])
   \<and> (author_id m \<noteq> selfID E \<and> channel_id m = ch \<and> \<not> isOnlyEmoji (tables E) (content m)
      \<and> detectLanguage E (content m) = Inr lang \<and> lang \<noteq> runes ''en''
      \<and> translateToEnglish E (content m) = Inr t
     \<longrightarrow> messageCreate_detect E ch m
          = [DetectCall (content m), TranslateCall (content m),
             ChannelMessageSend (channel_id m) (runes ''Translated: '' @ t)])"
  by (simp add: messageCreate_wordban_def messageCreate_detect_def translated_label_def)

theorem pipeline_gates_and_emit_witness:
  "messageCreate_wordban env0 index0 {runes ''spam''} msg0
     = [TranslateCall (runes ''bonjour le monde''),
        ChannelMessageSend ''chan1'' (runes ''Translated: '' @ runes ''hello the world'')]
   \<and> messageCreate_detect env0 ''chan1'' msg0
     = [DetectCall (runes ''bonjour le monde''), TranslateCall (runes ''bonjour le monde''),
        ChannelMessageSend ''chan1'' (runes ''Translated: '' @ runes ''hello the world'')]
   \<and> messageCreate_wordban env0 index0 {runes ''spam''} (msg0\<lparr>content := [128512, 127881]\<rparr>) = []
   \<and> messageCreate_detect env0 ''chan1'' (msg0\<lparr>content := [128512, 127881]\<rparr>) = []
   \<and> messageCreate_wordban env0 index0 {runes ''spam''} (msg0\<lparr>channel_id := ''chan9''\<rparr>) = []
   \<and> messageCreate_wordban env0 index0 {runes ''spam''} (msg0\<lparr>author_id := ''bot''\<rparr>) = []"
proof -
  note g = pipeline_gates_and_emit [where E = env0 and index = index0 and B = "{runes ''spam''}"
            and ch = "''chan1''" and t = "runes ''hello the world''" and lang = "runes ''fr''"]
  have p1: "author_id msg0 \<noteq> selfID env0 \<and> isTranslateChannel index0 (channel_id msg0)
      \<and> \<not> isOnlyEmoji (tables env0) (content msg0)
      \<and> \<not> containsBannedWord (tables env0) {runes ''spam''} (content msg0)
      \<and> translateToEnglish env0 (content msg0) = Inr (runes ''hello the world'')
      \<and> \<not> areTextsSimilar (tables env0) (content msg0) (runes ''hello the world'')"
    by (simp add: env0_sel msg0_sel index0_chan1 msg0_not_emoji msg0_not_banned msg0_not_similar)
  have p2: "author_id msg0 \<noteq> selfID env0 \<and> channel_id msg0 = ''chan1''
      \<and> \<not> isOnlyEmoji (tables env0) (content msg0)
      \<and> detectLanguage env0 (content msg0) = Inr (runes ''fr'') \<and> runes ''fr'' \<noteq> runes ''en''
      \<and> translateToEnglish env0 (content msg0) = Inr (runes ''hello the world'')"
    by (simp add: env0_sel msg0_sel msg0_not_emoji fr_not_en)
  from g [of msg0] p1 p2
  have a: "messageCreate_wordban env0 index0 {runes ''spam''} msg0
     = [TranslateCall (content msg0),
        ChannelMessageSend (channel_id msg0) (runes ''Translated: '' @ runes ''hello the world'')]"
   and b: "messageCreate_detect env0 ''chan1'' msg0
     = [DetectCall (content msg0), TranslateCall (content msg0),
        ChannelMessageSend (channel_id msg0) (runes ''Translated: '' @ runes ''hello the world'')]"
    by blast+
  have "isOnlyEmoji (tables env0) (content (msg0\<lparr>content := [128512, 127881]\<rparr>))"
    using party_is_emoji by (simp add: env0_sel)
  with g [of "msg0\<lparr>content := [128512, 127881]\<rparr>"]
  have c: "messageCreate_wordban env0 index0 {runes ''spam''} (msg0\<lparr>content := [128512, 127881]\<rparr>) = []"
   and d: "messageCreate_detect env0 ''chan1'' (msg0\<lparr>content := [128512, 127881]\<rparr>) = []"
    by blast+
  have "\<not> isTranslateChannel index0 (channel_id (msg0\<lparr>channel_id := ''chan9''\<rparr>))"
    by (simp add: index0_chan1)
  with g [of "msg0\<lparr>channel_id := ''chan9''\<rparr>"]
  have e: "messageCreate_wordban env0 index0 {runes ''spam''} (msg0\<lparr>channel_id := ''chan9''\<rparr>) = []"
    by blast
  have "author_id (msg0\<lparr>author_id := ''bot''\<rparr>) = selfID env0"
    by (simp add: env0_sel)
  with g [of "msg0\<lparr>author_id := ''bot''\<rparr>"]
  have f: "messageCreate_wordban env0 index0 {runes ''spam''} (msg0\<lparr>author_id := ''bot''\<rparr>) = []"
    by blast
  from a b c d e f show ?thesis by (simp add: msg0_sel)
qed

text \<open>Claim C2. \<open>areTextsSimilar\<close> is the scorer the specification describes: both
  texts are trimmed and lower-cased, equal normal forms give true, and otherwise the
  answer is false exactly when more than 2 positions of the original's tokens have no
  token or another token in the translation. Hence every text is similar to itself;
  \<^verbatim>\<open>"a b c"\<close> against \<^verbatim>\<open>"a b d"\<close> has 1 mismatch and is similar, against
  \<^verbatim>\<open>"x y z"\<close> it has 3 and is not.\<close>

theorem areTextsSimilar_meets_spec:
  "areTextsSimilar U original translated = areSimilar_spec U original translated
   \<and> areTextsSimilar U X X
   \<and> mismatches (Fields U (runes ''a b c'')) (Fields U (runes ''a b d'')) = 1
   \<and> areTextsSimilar U (runes ''a b c'') (runes ''a b d'')
   \<and> mismatches (Fields U (runes ''a b c'')) (Fields U (runes ''x y z'')) = 3
   \<and> \<not> areTextsSimilar U (runes ''a b c'') (runes ''x y z'')"
proof (intro conjI)
  show "areTextsSimilar U original translated = areSimilar_spec U original translated"
    by (rule areTextsSimilar_refines)
  show "areTextsSimilar U X X"
    by (simp add: areTextsSimilar_def)
  show "mismatches (Fields U (runes ''a b c'')) (Fields U (runes ''a b d'')) = 1"
    by (simp add: mismatches_def go_eval upt_conv_Cons)
  show "areTextsSimilar U (runes ''a b c'') (runes ''a b d'')"
    by (simp add: areTextsSimilar_def go_eval similarLoop_count upt_conv_Cons)
  show "mismatches (Fields U (runes ''a b c'')) (Fields U (runes ''x y z'')) = 3"
    by (simp add: mismatches_def go_eval upt_conv_Cons)
  show "\<not> areTextsSimilar U (runes ''a b c'') (runes ''x y z'')"
    by (simp add: areTextsSimilar_def go_eval similarLoop_count upt_conv_Cons)
qed

theorem areTextsSimilar_meets_spec_witness:
  "areTextsSimilar excerpt (runes ''  Hola Mundo'') (runes ''hola mundo '')
   \<and> areSimilar_spec excerpt (runes ''uno dos tres cuatro'') (runes ''one two three four'')
       = areTextsSimilar excerpt (runes ''uno dos tres cuatro'') (runes ''one two three four'')
   \<and> \<not> areSimilar_spec excerpt (runes ''uno dos tres cuatro'') (runes ''one two three four'')"
proof -
  have spec: "\<not> areSimilar_spec excerpt (runes ''uno dos tres cuatro'') (runes ''one two three four'')"
    by (simp add: areSimilar_spec_def mismatches_def go_eval upt_conv_Cons)
  have norm: "areTextsSimilar excerpt (runes ''  Hola Mundo'') (runes ''hola mundo '')"
    by (simp add: areTextsSimilar_def go_eval)
  from areTextsSimilar_meets_spec
         [of excerpt "runes ''uno dos tres cuatro''" "runes ''one two three four''"]
       spec norm
  show ?thesis by blast
qed



text \<open>Claim C4. Unset slots never match a channel identity. A channel identity is a
  non-empty string (the handlers pass \<^verbatim>\<open>m.ChannelID\<close>, and slots are filled from
  \<^verbatim>\<open>channel.ID\<close>); the empty string is how an unset slot is represented. For every such
  identity \<open>c\<close>:
  \<^item> on any index in memory, \<open>isTranslateChannel\<close> answers true exactly when a set slot
    of the index holds \<open>c\<close>, whatever slots are unset;
  \<^item> on the index that \<^verbatim>\<open>loadTranslateChannels\<close> builds from the stored rows, and so in
    every state the bot reaches by its startup load and its commands (\<open>reachable\<close>,
    which leaves out only a reload failing after the row was written), it answers false
    when no set slot of any stored row holds \<open>c\<close>;
  \<^item> in the two-slot variant, which queries the stored rows, it answers false when no
    set slot of any stored row holds \<open>c\<close>.\<close>

theorem unset_slots_never_match:
  "(c \<noteq> [] \<longrightarrow> isTranslateChannel index c = (c \<in> set (index_slots index)))
   \<and> (c \<noteq> [] \<and> c \<notin> set (set_slots tbl) \<longrightarrow> \<not> isTranslateChannel (loadRows tbl []) c)
   \<and> (reachable st \<and> c \<noteq> [] \<and> c \<notin> set (set_slots (channels_table st))
       \<longrightarrow> \<not> isTranslateChannel (translateChannels st) c)
   \<and> (c \<noteq> [] \<and> c \<notin> set (set_slots2 tbl2) \<longrightarrow> \<not> isTranslateChannel2 F tbl2 c)"
proof (intro conjI impI)
  assume "c \<noteq> []"
  then show "isTranslateChannel index c = (c \<in> set (index_slots index))"
    by (rule isTranslateChannel_index_slots)
next
  assume "c \<noteq> [] \<and> c \<notin> set (set_slots tbl)"
  with index_match_is_enrolled [of tbl c]
  show "\<not> isTranslateChannel (loadRows tbl []) c" by blast
next
  assume a: "reachable st \<and> c \<noteq> [] \<and> c \<notin> set (set_slots (channels_table st))"
  then have "translateChannels st = loadRows (channels_table st) []"
    by (simp add: reachable_index_fresh)
  with a index_match_is_enrolled [of "channels_table st" c]
  show "\<not> isTranslateChannel (translateChannels st) c" by auto
next
  assume a: "c \<noteq> [] \<and> c \<notin> set (set_slots2 tbl2)"
  show "\<not> isTranslateChannel2 F tbl2 c"
  proof
    assume "isTranslateChannel2 F tbl2 c"
    then obtain s x y where "(s, x, y) \<in> set tbl2" and "x = Some c \<or> y = Some c"
      unfolding isTranslateChannel2_iff by blast
    with a have "c \<in> set (set_slots2 tbl2)" using set_slots2_mem [of s x y tbl2 c] by blast
    with a show False by simp
  qed
qed

theorem unset_slots_never_match_witness:
  "reachable \<lparr>channels_table = [(''guild'', Some ''chan1'', None, None)],
              translateChannels = [(''guild'', ''chan1'', [], [])]\<rparr>
   \<and> set_slots [(''guild'', Some ''chan1'', None, None)] = [''chan1'']
   \<and> index_slots [(''guild'', ''chan1'', [], [])] = [''chan1'']
   \<and> loadRows [(''guild'', Some ''chan1'', None, None)] [] = [(''guild'', ''chan1'', [], [])]
   \<and> \<not> isTranslateChannel [(''guild'', ''chan1'', [], [])] ''chan9''
   \<and> isTranslateChannel [(''guild'', ''chan1'', [], [])] ''chan1''
   \<and> set_slots2 [(''guild'', Some ''chan1'', Some [])] = [''chan1'']
   \<and> \<not> isTranslateChannel2 no_faults [(''guild'', Some ''chan1'', Some [])] ''chan9''"
proof -
  let ?st = "\<lparr>channels_table = [(''guild'', Some ''chan1'', None, None)],
              translateChannels = [(''guild'', ''chan1'', [], [])]\<rparr>"
  have start: "reachable state0"
  proof (rule reachable.startup)
    show "loadTranslateChannels no_faults state0 = (None, state0)"
      by (simp add: loadTranslateChannels_def no_faults_def state0_def)
  qed
  have cmd: "addTranslateChannels no_faults ''guild'' (Some ''chan1'') None None state0 = (None, ?st)"
    by (simp add: addTranslateChannels_def loadTranslateChannels_def no_faults_def state0_def
          insertOrReplace_def override_def String_of_def)
  from start cmd have r: "reachable ?st" by (rule reachable.command) simp
  have ne9: "''chan9'' \<noteq> []" and ne1: "''chan1'' \<noteq> []" by simp_all
  have s1: "set_slots [(''guild'', Some ''chan1'', None, None)] = [''chan1'']"
    by (simp add: set_slots_def slots_of_def)
  have s2: "set_slots2 [(''guild'', Some ''chan1'', Some [])] = [''chan1'']"
    by (simp add: set_slots2_def slots_of_def)
  have i1: "index_slots [(''guild'', ''chan1'', [], [])] = [''chan1'']"
    by (simp add: index_slots_def)
  have l1: "loadRows [(''guild'', Some ''chan1'', None, None)] [] = [(''guild'', ''chan1'', [], [])]"
    by (simp add: String_of_def)
  from s1 have a: "''chan9'' \<notin> set (set_slots (channels_table ?st))" by simp
  from s2 have b: "''chan9'' \<notin> set (set_slots2 [(''guild'', Some ''chan1'', Some [])])" by simp
  from unset_slots_never_match
         [of "''chan9''" "[(''guild'', ''chan1'', [], [])]" "[(''guild'', Some ''chan1'', None, None)]"
             ?st "[(''guild'', Some ''chan1'', Some [])]" no_faults] ne9 r a b
  have n9: "\<not> isTranslateChannel (translateChannels ?st) ''chan9''
        \<and> \<not> isTranslateChannel2 no_faults [(''guild'', Some ''chan1'', Some [])] ''chan9''"
    by blast
  from unset_slots_never_match
         [of "''chan1''" "[(''guild'', ''chan1'', [], [])]" "[(''guild'', Some ''chan1'', None, None)]"
             ?st "[(''guild'', Some ''chan1'', Some [])]" no_faults] ne1 i1
  have y1: "isTranslateChannel [(''guild'', ''chan1'', [], [])] ''chan1''" by simp
  from r s1 s2 i1 l1 n9 y1 show ?thesis by simp
qed

text \<open>Claim C5. \<open>isOnlyEmoji\<close> is true exactly when every code point of the text is
  in the table \<^verbatim>\<open>S\<close> (symbols), \<^verbatim>\<open>So\<close> (other symbols) or \<^verbatim>\<open>Mn\<close>
  (non-spacing marks); it is true of the empty text, and false of any text that contains
  a letter or a digit.\<close>

theorem isOnlyEmoji_iff:
  "isOnlyEmoji U s = (\<forall>r\<in>set s. Is_S U r \<or> Is_So U r \<or> Is_Mn U r)
   \<and> isOnlyEmoji U []
   \<and> ((\<exists>r\<in>set s. IsLetter U r \<or> IsDigit U r) \<longrightarrow> \<not> isOnlyEmoji U s)"
proof (intro conjI impI)
  show "isOnlyEmoji U s = (\<forall>r\<in>set s. Is_S U r \<or> Is_So U r \<or> Is_Mn U r)"
    by (simp add: isOnlyEmoji_all isEmoji_def)
  show "isOnlyEmoji U []" by simp
next
  assume "\<exists>r\<in>set s. IsLetter U r \<or> IsDigit U r"
  then obtain r where "r \<in> set s" and "IsLetter U r \<or> IsDigit U r" by blast
  then have "r \<in> set s" and "\<not> isEmoji U r" by (simp_all add: letter_not_emoji)
  then show "\<not> isOnlyEmoji U s" by (auto simp: isOnlyEmoji_all)
qed

theorem isOnlyEmoji_iff_witness:
  "isOnlyEmoji excerpt [128512, 127881]
   \<and> isOnlyEmoji excerpt [128512, 65039, 127995]
   \<and> IsLetter excerpt 111
   \<and> \<not> isOnlyEmoji excerpt (runes ''ok'' @ [128512])
   \<and> IsDigit excerpt 55
   \<and> \<not> isOnlyEmoji excerpt (128512 # runes ''7'')"
proof -
  have a: "isOnlyEmoji excerpt [128512, 127881]" and b: "isOnlyEmoji excerpt [128512, 65039, 127995]"
    using isOnlyEmoji_iff [of excerpt "[128512, 127881]"]
          isOnlyEmoji_iff [of excerpt "[128512, 65039, 127995]"]
    by (simp_all add: cat_eval)
  have l: "IsLetter excerpt 111" and d: "IsDigit excerpt 55" by (simp_all add: cat_eval)
  have "111 \<in> set (runes ''ok'' @ [128512])" by (simp add: runes_def)
  with l isOnlyEmoji_iff [of excerpt "runes ''ok'' @ [128512]"]
  have c: "\<not> isOnlyEmoji excerpt (runes ''ok'' @ [128512])" by blast
  have "55 \<in> set (128512 # runes ''7'')" by (simp add: runes_def)
  with d isOnlyEmoji_iff [of excerpt "128512 # runes ''7''"]
  have e: "\<not> isOnlyEmoji excerpt (128512 # runes ''7'')" by blast
  from a b c d e l show ?thesis by simp
qed

text \<open>Claim C6. \<open>containsBannedWord\<close> is true exactly when a token of the lower-cased
  text is a member of the banned set. When lower-casing keeps white space this is the
  same as: a token of the text, lower-cased, is a member. Tokens are compared whole, so
  \<^verbatim>\<open>Word.\<close> does not match the banned word \<^verbatim>\<open>word\<close> while \<^verbatim>\<open>Word\<close> does.\<close>

theorem containsBannedWord_iff:
  "(containsBannedWord U B s \<longleftrightarrow> (\<exists>w\<in>set (Fields U (ToLower U s)). w \<in> B))
   \<and> (lower_keeps_space U \<longrightarrow>
        (containsBannedWord U B s \<longleftrightarrow> (\<exists>w\<in>set (Fields U s). ToLower U w \<in> B)))
   \<and> containsBannedWord U {runes ''word''} (runes ''a Word here'')
   \<and> \<not> containsBannedWord U {runes ''word''} (runes ''a Word. here'')"
proof (intro conjI impI)
  show "containsBannedWord U B s \<longleftrightarrow> (\<exists>w\<in>set (Fields U (ToLower U s)). w \<in> B)"
    by (simp add: containsBannedWord_def bannedLoop_ex)
  show "containsBannedWord U {runes ''word''} (runes ''a Word here'')"
    by (simp add: containsBannedWord_def go_eval)
  show "\<not> containsBannedWord U {runes ''word''} (runes ''a Word. here'')"
    by (simp add: containsBannedWord_def go_eval)
next
  assume "lower_keeps_space U"
  then have "Fields U (ToLower U s) = map (ToLower U) (Fields U s)" by (rule Fields_ToLower)
  then show "containsBannedWord U B s \<longleftrightarrow> (\<exists>w\<in>set (Fields U s). ToLower U w \<in> B)"
    by (simp add: containsBannedWord_def bannedLoop_ex)
qed

theorem containsBannedWord_iff_witness:
  "lower_keeps_space excerpt
   \<and> Fields excerpt (runes ''Buy SPAM now'') = [runes ''Buy'', runes ''SPAM'', runes ''now'']
   \<and> ToLower excerpt (runes ''SPAM'') = runes ''spam''
   \<and> containsBannedWord excerpt {runes ''spam'', runes ''eggs''} (runes ''Buy SPAM now'')"
proof -
  have f: "Fields excerpt (runes ''Buy SPAM now'') = [runes ''Buy'', runes ''SPAM'', runes ''now'']"
    by (simp add: go_eval)
  have l: "ToLower excerpt (runes ''SPAM'') = runes ''spam''"
    by (simp add: go_eval)
  have "\<exists>w\<in>set (Fields excerpt (runes ''Buy SPAM now'')).
          ToLower excerpt w \<in> {runes ''spam'', runes ''eggs''}"
    using l by (simp add: f)
  moreover from containsBannedWord_iff
         [of excerpt "{runes ''spam'', runes ''eggs''}" "runes ''Buy SPAM now''"]
  have "lower_keeps_space excerpt \<longrightarrow>
        (containsBannedWord excerpt {runes ''spam'', runes ''eggs''} (runes ''Buy SPAM now'') \<longleftrightarrow>
         (\<exists>w\<in>set (Fields excerpt (runes ''Buy SPAM now'')).
            ToLower excerpt w \<in> {runes ''spam'', runes ''eggs''}))"
    by blast
  ultimately have "containsBannedWord excerpt {runes ''spam'', runes ''eggs''} (runes ''Buy SPAM now'')"
    using excerpt_lower_keeps_space by blast
  with excerpt_lower_keeps_space f l show ?thesis by blast
qed

text \<open>Claim C7. When the detector or the translation service fails, the handler logs
  the error and stops: the trace is the call that failed followed by the log line, so
  nothing is sent to the channel and the service is not called again. Stated for the
  word-ban variant (translation fails) and for the detector variant that passes the
  detected language on (detection fails, translation fails); the last two parts hold
  whatever the other gates decide.\<close>

theorem failures_are_logged_and_skipped:
  "(author_id m \<noteq> selfID E \<and> isTranslateChannel index (channel_id m)
      \<and> \<not> isOnlyEmoji (tables E) (content m)
      \<and> \<not> containsBannedWord (tables E) B (content m)
      \<and> translateToEnglish E (content m) = Inl err
     \<longrightarrow> messageCreate_wordban E index B m
          = [TranslateCall (content m), LogPrintln ''Error translating message,'' err])
   \<and> (author_id m \<noteq> selfID E \<and> channel_id m = ch \<and> detectLanguage E (content m) = Inl err
     \<longrightarrow> messageCreate_api E ch m
          = [DetectCall (content m), LogPrintln ''Error detecting language,'' err])
   \<and> (author_id m \<noteq> selfID E \<and> channel_id m = ch \<and> detectLanguage E (content m) = Inr lang
      \<and> lang \<noteq> runes ''en'' \<and> translateFrom E (content m) lang = Inl err
     \<longrightarrow> messageCreate_api E ch m
          = [DetectCall (content m), TranslateFromCall (content m) lang,
             LogPrintln ''Error translating message,'' err])
   \<and> (translateToEnglish E (content m) = Inl err
     \<longrightarrow> filter is_send (messageCreate_wordban E index B m) = []
         \<and> length (filter is_gateway_call (messageCreate_wordban E index B m)) \<le> 1)
   \<and> (detectLanguage E (content m) = Inl err
       \<or> (\<exists>lang. detectLanguage E (content m) = Inr lang \<and> translateFrom E (content m) lang = Inl err)
     \<longrightarrow> filter is_send (messageCreate_api E ch m) = []
         \<and> length (filter is_gateway_call (messageCreate_api E ch m)) \<le> 1)"
  by (auto simp: messageCreate_wordban_def messageCreate_api_def)

theorem failures_are_logged_and_skipped_witness:
  "messageCreate_wordban (env0\<lparr>translateToEnglish := (\<lambda>s. Inl GatewayError)\<rparr>) index0
       {runes ''spam''} msg0
     = [TranslateCall (runes ''bonjour le monde''),
        LogPrintln ''Error translating message,'' GatewayError]
   \<and> messageCreate_api (env0\<lparr>detectLanguage := (\<lambda>s. Inl DetectionError)\<rparr>) ''chan1'' msg0
     = [DetectCall (runes ''bonjour le monde''),
        LogPrintln ''Error detecting language,'' DetectionError]
   \<and> messageCreate_api env0 ''chan1'' msg0
     = [DetectCall (runes ''bonjour le monde''),
        TranslateFromCall (runes ''bonjour le monde'') (runes ''fr''),
        LogPrintln ''Error translating message,'' GatewayError]"
proof -
  let ?E1 = "env0\<lparr>translateToEnglish := (\<lambda>s. Inl GatewayError)\<rparr>"
  let ?E2 = "env0\<lparr>detectLanguage := (\<lambda>s. Inl DetectionError)\<rparr>"
  have p1: "author_id msg0 \<noteq> selfID ?E1 \<and> isTranslateChannel index0 (channel_id msg0)
      \<and> \<not> isOnlyEmoji (tables ?E1) (content msg0)
      \<and> \<not> containsBannedWord (tables ?E1) {runes ''spam''} (content msg0)
      \<and> translateToEnglish ?E1 (content msg0) = Inl GatewayError"
    by (simp add: env0_sel msg0_sel index0_chan1 msg0_not_emoji msg0_not_banned)
  from failures_are_logged_and_skipped
         [of msg0 ?E1 index0 "{runes ''spam''}" GatewayError "''chan1''" "runes ''fr''"] p1
  have a: "messageCreate_wordban ?E1 index0 {runes ''spam''} msg0
     = [TranslateCall (content msg0), LogPrintln ''Error translating message,'' GatewayError]"
    by blast
  have p2: "author_id msg0 \<noteq> selfID ?E2 \<and> channel_id msg0 = ''chan1''
      \<and> detectLanguage ?E2 (content msg0) = Inl DetectionError"
    by (simp add: env0_sel msg0_sel)
  from failures_are_logged_and_skipped
         [of msg0 ?E2 index0 "{runes ''spam''}" DetectionError "''chan1''" "runes ''fr''"] p2
  have b: "messageCreate_api ?E2 ''chan1'' msg0
     = [DetectCall (content msg0), LogPrintln ''Error detecting language,'' DetectionError]"
    by blast
  have p3: "author_id msg0 \<noteq> selfID env0 \<and> channel_id msg0 = ''chan1''
      \<and> detectLanguage env0 (content msg0) = Inr (runes ''fr'')
      \<and> runes ''fr'' \<noteq> runes ''en''
      \<and> translateFrom env0 (content msg0) (runes ''fr'') = Inl GatewayError"
    by (simp add: env0_sel msg0_sel fr_not_en)
  from failures_are_logged_and_skipped
         [of msg0 env0 index0 "{runes ''spam''}" GatewayError "''chan1''" "runes ''fr''"] p3
  have c: "messageCreate_api env0 ''chan1'' msg0
     = [DetectCall (content msg0), TranslateFromCall (content msg0) (runes ''fr''),
        LogPrintln ''Error translating message,'' GatewayError]"
    by blast
  from a b c show ?thesis by (simp add: msg0_sel)
qed

text \<open>Claim C8. In the trivial-content variant, a message from another user in an
  enrolled channel that is not emoji-only and has exactly one token leaves an empty
  trace; and when such a message has exactly two tokens, the first of which is
  \<^verbatim>\<open>en\<close> (the code compares its lower-cased form), the one call to the translation
  service carries the second token alone.\<close>

theorem trivial_content_gate:
  "(author_id m \<noteq> selfID E \<and> isTranslateChannel2 F tbl (channel_id m)
      \<and> \<not> isOnlyEmoji (tables E) (content m)
      \<and> length (Fields (tables E) (content m)) = 1
     \<longrightarrow> messageCreate_trivial E F tbl m = [])
   \<and> (author_id m \<noteq> selfID E \<and> isTranslateChannel2 F tbl (channel_id m)
      \<and> \<not> isOnlyEmoji (tables E) (content m)
      \<and> Fields (tables E) (content m) = [w1, w2]
      \<and> (w1 = runes ''en'' \<or> ToLower (tables E) w1 = runes ''en'')
     \<longrightarrow> filter is_gateway_call (messageCreate_trivial E F tbl m) = [TranslateCall w2])"
proof (intro conjI impI)
  assume "author_id m \<noteq> selfID E \<and> isTranslateChannel2 F tbl (channel_id m)
      \<and> \<not> isOnlyEmoji (tables E) (content m)
      \<and> length (Fields (tables E) (content m)) = 1"
  then show "messageCreate_trivial E F tbl m = []"
    by (simp add: messageCreate_trivial_def)
next
  assume a: "author_id m \<noteq> selfID E \<and> isTranslateChannel2 F tbl (channel_id m)
      \<and> \<not> isOnlyEmoji (tables E) (content m)
      \<and> Fields (tables E) (content m) = [w1, w2]
      \<and> (w1 = runes ''en'' \<or> ToLower (tables E) w1 = runes ''en'')"
  then have low: "ToLower (tables E) w1 = runes ''en''"
    using ToLower_en [of "tables E"] by auto
  show "filter is_gateway_call (messageCreate_trivial E F tbl m) = [TranslateCall w2]"
  proof (cases "translateToEnglish E w2")
    case (Inl err)
    with a low show ?thesis by (simp add: messageCreate_trivial_def Let_def)
  next
    case (Inr t)
    with a low show ?thesis by (simp add: messageCreate_trivial_def Let_def)
  qed
qed

theorem trivial_content_gate_witness:
  "messageCreate_trivial env0 no_faults table2_0 (msg_en\<lparr>content := runes ''bonjour''\<rparr>) = []
   \<and> filter is_gateway_call (messageCreate_trivial env0 no_faults table2_0 msg_en)
       = [TranslateCall (runes ''bonjour'')]"
proof -
  let ?m1 = "msg_en\<lparr>content := runes ''bonjour''\<rparr>"
  have p1: "author_id ?m1 \<noteq> selfID env0 \<and> isTranslateChannel2 no_faults table2_0 (channel_id ?m1)
      \<and> \<not> isOnlyEmoji (tables env0) (content ?m1)
      \<and> length (Fields (tables env0) (content ?m1)) = 1"
    using bonjour_not_emoji bonjour_one_field
    by (simp add: env0_sel msg_en_sel table2_0_chan1)
  from trivial_content_gate [of ?m1 env0 no_faults table2_0 "runes ''en''" "runes ''bonjour''"] p1
  have a: "messageCreate_trivial env0 no_faults table2_0 ?m1 = []" by blast
  have p2: "author_id msg_en \<noteq> selfID env0 \<and> isTranslateChannel2 no_faults table2_0 (channel_id msg_en)
      \<and> \<not> isOnlyEmoji (tables env0) (content msg_en)
      \<and> Fields (tables env0) (content msg_en) = [runes ''en'', runes ''bonjour'']
      \<and> (runes ''en'' = runes ''en'' \<or> ToLower (tables env0) (runes ''en'') = runes ''en'')"
    using en_bonjour_not_emoji en_bonjour_fields
    by (simp add: env0_sel msg_en_sel table2_0_chan1)
  from trivial_content_gate [of msg_en env0 no_faults table2_0 "runes ''en''" "runes ''bonjour''"] p2
  have b: "filter is_gateway_call (messageCreate_trivial env0 no_faults table2_0 msg_en)
       = [TranslateCall (runes ''bonjour'')]" by blast
  from a b show ?thesis by simp
qed

text \<open>Claim C10. In the trivial-content variant the \<^verbatim>\<open>en\<close> prefix never leads to
  a message being sent: the second token of a two-token message is a single token, so
  it is similar to every translation, and the trace of a message whose first token
  lower-cases to \<^verbatim>\<open>en\<close> contains no send. The Unicode tables are assumed to keep
  white space under lower-casing.\<close>

theorem en_prefix_never_emits:
  "(lower_keeps_space (tables E) \<and> Fields (tables E) (content m) = [w1, w2]
      \<longrightarrow> Fields (tables E) w2 = [w2] \<and> areTextsSimilar (tables E) w2 t)
   \<and> (lower_keeps_space (tables E) \<and> Fields (tables E) (content m) = [w1, w2]
      \<and> ToLower (tables E) w1 = runes ''en''
      \<longrightarrow> filter is_send (messageCreate_trivial E F tbl m) = [])"
proof (intro conjI impI)
  assume a: "lower_keeps_space (tables E) \<and> Fields (tables E) (content m) = [w1, w2]"
  then have mem: "w2 \<in> set (Fields (tables E) (content m))" by simp
  then show "Fields (tables E) w2 = [w2]" by (rule Fields_token)
  from a have "lower_keeps_space (tables E)" by simp
  then show "areTextsSimilar (tables E) w2 t" using mem by (rule token_similar)
next
  assume a: "lower_keeps_space (tables E) \<and> Fields (tables E) (content m) = [w1, w2]
      \<and> ToLower (tables E) w1 = runes ''en''"
  then have mem: "w2 \<in> set (Fields (tables E) (content m))" by simp
  from a have "lower_keeps_space (tables E)" by simp
  then have sim: "\<And>t. areTextsSimilar (tables E) w2 t" using mem by (rule token_similar)
  show "filter is_send (messageCreate_trivial E F tbl m) = []"
  proof (cases "translateToEnglish E w2")
    case (Inl err)
    with a show ?thesis by (simp add: messageCreate_trivial_def Let_def)
  next
    case (Inr t)
    with a sim show ?thesis by (simp add: messageCreate_trivial_def Let_def)
  qed
qed

theorem en_prefix_never_emits_witness:
  "lower_keeps_space excerpt
   \<and> Fields excerpt (runes ''en bonjour'') = [runes ''en'', runes ''bonjour'']
   \<and> ToLower excerpt (runes ''en'') = runes ''en''
   \<and> areTextsSimilar excerpt (runes ''bonjour'') (runes ''hello the world'')
   \<and> filter is_send (messageCreate_trivial env0 no_faults table2_0 msg_en) = []
   \<and> messageCreate_trivial env0 no_faults table2_0 msg_en = [TranslateCall (runes ''bonjour'')]"
proof -
  have p: "lower_keeps_space (tables env0)
      \<and> Fields (tables env0) (content msg_en) = [runes ''en'', runes ''bonjour'']
      \<and> ToLower (tables env0) (runes ''en'') = runes ''en''"
    using en_bonjour_fields excerpt_lower_keeps_space ToLower_en
    by (simp add: env0_sel msg_en_sel)
  note inst = en_prefix_never_emits
         [of env0 msg_en "runes ''en''" "runes ''bonjour''" "runes ''hello the world''"
             no_faults table2_0]
  from inst p
  have sim: "areTextsSimilar (tables env0) (runes ''bonjour'') (runes ''hello the world'')"
    by blast
  then have sim': "areTextsSimilar excerpt (runes ''bonjour'') (runes ''hello the world'')"
    by (simp add: env0_sel)
  from inst p
  have quiet: "filter is_send (messageCreate_trivial env0 no_faults table2_0 msg_en) = []"
    by blast
  have run: "messageCreate_trivial env0 no_faults table2_0 msg_en
               = [TranslateCall (runes ''bonjour'')]"
    using sim' en_bonjour_not_emoji en_bonjour_fields ToLower_en [of excerpt]
    by (simp add: messageCreate_trivial_def Let_def env0_sel msg_en_sel table2_0_chan1)
  from sim' quiet run en_bonjour_fields excerpt_lower_keeps_space ToLower_en [of excerpt]
  show ?thesis by simp
qed

text \<open>Claim C9. An original of at most two tokens is similar to every translation: the
  counter grows at most once per token of the original. The first part counts the tokens
  the loop runs over (those of the normalised original); the second counts the tokens of
  the original as it was sent, which are as many when lower-casing keeps white space.\<close>

theorem short_original_always_similar:
  "(length (Fields U (ToLower U (TrimSpace U original))) \<le> 2
      \<longrightarrow> areTextsSimilar U original translated)
   \<and> (lower_keeps_space U \<and> length (Fields U original) \<le> 2
      \<longrightarrow> areTextsSimilar U original translated)"
  by (simp add: short_similar short_similar_raw)

theorem short_original_always_similar_witness:
  "lower_keeps_space excerpt \<and> length (Fields excerpt (runes ''buenos dias'')) = 2
   \<and> areTextsSimilar excerpt (runes ''buenos dias'') (runes ''good morning to you all'')"
proof -
  have len: "length (Fields excerpt (runes ''buenos dias'')) = 2"
    by (simp add: go_eval)
  with short_original_always_similar
         [of excerpt "runes ''buenos dias''" "runes ''good morning to you all''"]
       excerpt_lower_keeps_space
  show ?thesis by simp
qed

end
